theory Spec2Isabelle
  imports Main
begin

section \<open>Errors and rendering of numbers\<close>

text \<open>
  Template strings of the source print numbers in decimal (\<^verbatim>\<open>`${msg.attempts}`\<close>);
  \<open>string_of_nat\<close> is that rendering for natural numbers.
\<close>

fun string_of_nat :: "nat \<Rightarrow> string" where
  "string_of_nat n =
     (if n < 10 then [''0123456789'' ! n]
      else string_of_nat (n div 10) @ [''0123456789'' ! (n mod 10)])"

declare string_of_nat.simps [simp del]

text \<open>
  \<^verbatim>\<open>class AppError extends Error\<close> (utils/errorHandler): the constructor stores the
  message and the status code and derives \<open>status\<close>: \<^verbatim>\<open>'fail'\<close> when the decimal
  rendering of the code starts with \<^verbatim>\<open>4\<close>, \<^verbatim>\<open>'error'\<close> otherwise.
\<close>

record app_error =
  message :: string
  statusCode :: nat
  status :: string

definition AppError :: "string \<Rightarrow> nat \<Rightarrow> app_error" where
  "AppError msg code =
     \<lparr>message = msg, statusCode = code,
      status = (if take 1 (string_of_nat code) = ''4'' then ''fail'' else ''error'')\<rparr>"

section \<open>The message queue (utils/messageQueue)\<close>

text \<open>
  \<open>config.queue\<close>: the four numbers the queue reads. They come from the environment
  (or the defaults 1000, 3, 5000, 1) and are used as numbers by the comparisons and by
  \<open>splice\<close>; the model takes them as naturals.
\<close>

record queue_config =
  messageDelay :: nat
  maxRetries :: nat
  retryDelay :: nat
  concurrency :: nat

definition default_queue_config :: queue_config where
  "default_queue_config =
     \<lparr>messageDelay = 1000, maxRetries = 3, retryDelay = 5000, concurrency = 1\<rparr>"

text \<open>The options object a message carries: \<^verbatim>\<open>{ to, message, priority }\<close>.\<close>

record send_options =
  opt_to :: string
  opt_message :: string
  opt_priority :: string

text \<open>What the send function of the service resolves with.\<close>

record send_result =
  success :: bool
  messageId :: string
  timestamp :: nat

text \<open>
  A JavaScript promise is settled at most once: \<open>resolve\<close> and \<open>reject\<close> on a promise
  that is no longer pending do nothing. The promises handed out by \<open>add\<close> live in a store
  (a list, a promise being its index), because the queue item only holds the
  \<open>resolve\<close>/\<open>reject\<close> closures of a promise that the caller holds too.
\<close>

datatype 'a promise = Pending | Fulfilled 'a | Rejected app_error

definition settle :: "nat \<Rightarrow> 'a promise \<Rightarrow> 'a promise list \<Rightarrow> 'a promise list" where
  "settle p outcome ps =
     (if p < length ps \<and> ps ! p = Pending then ps[p := outcome] else ps)"

text \<open>
  A queue item, as pushed by \<open>add\<close>. The \<open>sendFunction\<close> closure is not a field of the
  model: what it does (resolve with a result or throw an error) is supplied by the
  environment when the send completes. \<open>promise\<close> stands for the pair of closures
  \<open>resolve\<close>, \<open>reject\<close>.
\<close>

record msg =
  msg_id :: string
  options :: send_options
  promise :: nat
  attempts :: nat
  addedAt :: nat

text \<open>
  The promise returned by one call \<open>processMessage(msg)\<close>: it is waiting for the send
  function, or waiting for the retry delay (the send has thrown and
  \<open>attempts < maxRetries\<close>), or it has settled.
\<close>

datatype pm_state =
    AwaitSend
  | AwaitRetryDelay
  | PMFulfilled send_result
  | PMRejected app_error

text \<open>
  Where the asynchronous \<open>process()\<close> is suspended: not running, awaiting
  \<open>Promise.allSettled\<close> over the batch, or awaiting the delay between batches.
\<close>

datatype loop_state =
    Idle
  | InBatch "(msg \<times> pm_state) list"
  | BatchDelay

record message_queue =
  queue :: "msg list"
  processing :: bool
  messagesSent :: nat
  messagesQueued :: nat
  messagesFailed :: nat
  promises :: "send_result promise list"
  loop :: loop_state

text \<open>The constructor.\<close>

definition new_queue :: message_queue where
  "new_queue =
     \<lparr>queue = [], processing = False, messagesSent = 0, messagesQueued = 0,
      messagesFailed = 0, promises = [], loop = Idle\<rparr>"

text \<open>
  \<open>processMessage\<close> up to its first suspension: \<open>msg.attempts++\<close>, then the send
  function is called and awaited.
\<close>

definition processMessage_begin :: "msg \<Rightarrow> msg \<times> pm_state" where
  "processMessage_begin m = (m\<lparr>attempts := attempts m + 1\<rparr>, AwaitSend)"

text \<open>
  \<open>process()\<close> up to its first suspension. With an empty batch (only possible when
  \<open>concurrency\<close> is 0) nothing is awaited: the \<open>finally\<close> block clears the flag and
  calls \<open>process()\<close> again at once, without end; that run has no result (\<open>None\<close>).
\<close>

partial_function (option) process :: "queue_config \<Rightarrow> message_queue \<Rightarrow> message_queue option" where
  "process cfg s =
     (if processing s \<or> length (queue s) = 0 then Some s
      else (let s1 = s\<lparr>processing := True\<rparr>;
                batch = take (concurrency cfg) (queue s1);
                s2 = s1\<lparr>queue := drop (concurrency cfg) (queue s1)\<rparr>
            in if length batch > 0
               then Some (s2\<lparr>loop := InBatch (map processMessage_begin batch)\<rparr>)
               else (let s3 = s2\<lparr>processing := False, loop := Idle\<rparr>
                     in if length (queue s3) > 0 then process cfg s3 else Some s3)))"

declare process.simps [code]

text \<open>
  \<open>add(sendFunction, options)\<close>. The id is \<open>Date.now()\<close> in decimal followed by a random
  suffix; the clock \<open>now\<close> and the suffix \<open>rnd\<close> are inputs. \<open>new_msg\<close> is the object
  pushed, \<open>add_push\<close> is \<open>add\<close> up to and including \<open>this.queue.push\<close>, and \<open>add\<close>
  then starts \<open>process()\<close> when the flag is clear. Returns the new promise.
\<close>

definition new_msg :: "nat \<Rightarrow> string \<Rightarrow> send_options \<Rightarrow> nat \<Rightarrow> msg" where
  "new_msg now rnd opts p =
     \<lparr>msg_id = string_of_nat now @ rnd, options = opts, promise = p,
      attempts = 0, addedAt = now\<rparr>"

definition add_push :: "nat \<Rightarrow> string \<Rightarrow> send_options \<Rightarrow> message_queue \<Rightarrow> nat \<times> message_queue" where
  "add_push now rnd opts s =
     (let s1 = s\<lparr>messagesQueued := messagesQueued s + 1\<rparr>;
          p = length (promises s1);
          s2 = s1\<lparr>promises := promises s1 @ [Pending]\<rparr>
      in (p, s2\<lparr>queue := queue s2 @ [new_msg now rnd opts p]\<rparr>))"

definition add :: "queue_config \<Rightarrow> nat \<Rightarrow> string \<Rightarrow> send_options \<Rightarrow> message_queue
    \<Rightarrow> (nat \<times> message_queue) option" where
  "add cfg now rnd opts s =
     (let (p, s3) = add_push now rnd opts s
      in map_option (Pair p) (if \<not> processing s3 then process cfg s3 else Some s3))"

text \<open>
  The \<open>results.forEach\<close> of \<open>process()\<close>, one batch entry at a time: a fulfilled
  \<open>processMessage\<close> resolves the item's promise and counts as sent, a rejected one
  rejects it and counts as failed.
\<close>

fun forEach_result :: "(msg \<times> pm_state) list \<Rightarrow> message_queue \<Rightarrow> message_queue" where
  "forEach_result [] s = s"
| "forEach_result ((m, PMFulfilled v) # rest) s =
     forEach_result rest
       (s\<lparr>promises := settle (promise m) (Fulfilled v) (promises s),
          messagesSent := messagesSent s + 1\<rparr>)"
| "forEach_result ((m, PMRejected e) # rest) s =
     forEach_result rest
       (s\<lparr>promises := settle (promise m) (Rejected e) (promises s),
          messagesFailed := messagesFailed s + 1\<rparr>)"
| "forEach_result ((m, _) # rest) s = forEach_result rest s"

fun is_settled :: "pm_state \<Rightarrow> bool" where
  "is_settled (PMFulfilled v) = True"
| "is_settled (PMRejected e) = True"
| "is_settled _ = False"

text \<open>
  The continuation of \<open>await Promise.allSettled(...)\<close>: it runs once every entry of the
  batch has settled, walks the results and then awaits the delay between batches.
\<close>

definition after_settle :: "message_queue \<Rightarrow> message_queue" where
  "after_settle s =
     (case loop s of
        InBatch items \<Rightarrow>
          if list_all (\<lambda>(m, st). is_settled st) items
          then (forEach_result items s)\<lparr>loop := BatchDelay\<rparr>
          else s
      | _ \<Rightarrow> s)"

text \<open>
  The send function of batch entry \<open>i\<close> returns: \<open>Inr v\<close> when it resolves with \<open>v\<close>,
  \<open>Inl e\<close> when it throws an error with message \<open>e\<close>. This is the rest of
  \<open>processMessage\<close> up to its next suspension. An event for an entry that is not waiting
  for its send changes nothing.
\<close>

definition send_done :: "queue_config \<Rightarrow> nat \<Rightarrow> string + send_result \<Rightarrow> message_queue
    \<Rightarrow> message_queue" where
  "send_done cfg i outcome s =
     (case loop s of
        InBatch items \<Rightarrow>
          if i < length items \<and> snd (items ! i) = AwaitSend
          then (let m = fst (items ! i);
                    st = (case outcome of
                            Inr v \<Rightarrow> PMFulfilled v
                          | Inl e \<Rightarrow>
                              if attempts m < maxRetries cfg then AwaitRetryDelay
                              else PMRejected (AppError
                                (''Failed to send message after '' @ string_of_nat (attempts m)
                                   @ '' attempts: '' @ e) 500))
                in after_settle (s\<lparr>loop := InBatch (items[i := (m, st)])\<rparr>))
          else s
      | _ \<Rightarrow> s)"

text \<open>
  The retry delay of batch entry \<open>i\<close> has elapsed: \<open>this.queue.unshift(msg)\<close>, and
  \<open>processMessage\<close> rejects with the "will be retried" error.
\<close>

definition retry_elapsed :: "queue_config \<Rightarrow> nat \<Rightarrow> message_queue \<Rightarrow> message_queue" where
  "retry_elapsed cfg i s =
     (case loop s of
        InBatch items \<Rightarrow>
          if i < length items \<and> snd (items ! i) = AwaitRetryDelay
          then (let m = fst (items ! i);
                    e = AppError (''Message will be retried ('' @ string_of_nat (attempts m)
                          @ ''/'' @ string_of_nat (maxRetries cfg) @ '')'') 500
                in after_settle
                     (s\<lparr>queue := m # queue s, loop := InBatch (items[i := (m, PMRejected e)])\<rparr>))
          else s
      | _ \<Rightarrow> s)"

text \<open>
  The delay between batches has elapsed: the \<open>finally\<close> block clears the flag and
  starts \<open>process()\<close> again when the queue is not empty.
\<close>

definition delay_elapsed :: "queue_config \<Rightarrow> message_queue \<Rightarrow> message_queue option" where
  "delay_elapsed cfg s =
     (case loop s of
        BatchDelay \<Rightarrow>
          (let s1 = s\<lparr>processing := False, loop := Idle\<rparr>
           in if length (queue s1) > 0 then process cfg s1 else Some s1)
      | _ \<Rightarrow> Some s)"

text \<open>\<open>getStats()\<close> and \<open>clear()\<close>.\<close>

record queue_stats =
  queued :: nat
  sent :: nat
  failed :: nat
  total :: nat
  stat_processing :: bool

definition getStats :: "message_queue \<Rightarrow> queue_stats" where
  "getStats s =
     \<lparr>queued = length (queue s), sent = messagesSent s, failed = messagesFailed s,
      total = messagesQueued s, stat_processing = processing s\<rparr>"

definition clear :: "message_queue \<Rightarrow> nat \<times> message_queue" where
  "clear s = (let count = length (queue s) in (count, s\<lparr>queue := []\<rparr>))"

text \<open>
  A run of the queue is a sequence of events: calls of \<open>add\<close> and \<open>clear\<close> from outside,
  and the completions the event loop delivers (a send returning, a retry delay or the
  batch delay elapsing). Each event runs to the next suspension point, as a JavaScript
  task does.
\<close>

datatype queue_event =
    Add nat string send_options
  | Clear
  | SendDone nat "string + send_result"
  | RetryElapsed nat
  | DelayElapsed

fun queue_step :: "queue_config \<Rightarrow> queue_event \<Rightarrow> message_queue \<Rightarrow> message_queue option" where
  "queue_step cfg (Add now rnd opts) s = map_option snd (add cfg now rnd opts s)"
| "queue_step cfg Clear s = Some (snd (clear s))"
| "queue_step cfg (SendDone i outcome) s = Some (send_done cfg i outcome s)"
| "queue_step cfg (RetryElapsed i) s = Some (retry_elapsed cfg i s)"
| "queue_step cfg DelayElapsed s = delay_elapsed cfg s"

fun queue_run :: "queue_config \<Rightarrow> queue_event list \<Rightarrow> message_queue \<Rightarrow> message_queue option" where
  "queue_run cfg [] s = Some s"
| "queue_run cfg (e # es) s =
     (case queue_step cfg e s of None \<Rightarrow> None | Some s' \<Rightarrow> queue_run cfg es s')"

section \<open>The session service (services/whatsappService)\<close>

text \<open>
  The service keeps three fields: \<open>client\<close>, \<open>isInitialized\<close> and
  \<open>initializationPromise\<close>. The model adds what the fields refer to: the \<open>Client\<close>
  objects constructed so far (a client being its index), the promises returned by the
  calls of \<open>_initialize()\<close> (one entry per call, a promise being its index), and
  \<open>mongoose.connection.readyState\<close>. Logging, the status page, the lifetime timer and the
  notification sent by the \<open>ready\<close> handler are outside the model.
\<close>

datatype client_state = Live | LoggedOut | Destroyed

text \<open>
  One call of \<open>_initialize()\<close>: suspended at \<open>mongoose.connect\<close>, at
  \<open>client.initialize()\<close> or at the promise that waits for \<open>ready\<close>, or returned
  (\<open>return this.client\<close>) or thrown (the \<open>AppError\<close> of the \<open>catch\<close> block).
\<close>

datatype init_state =
    AwaitMongo
  | AwaitClientInitialize
  | AwaitReady
  | InitFulfilled "nat option"
  | InitRejected app_error

record whatsapp_service =
  client :: "nat option"
  isInitialized :: bool
  initializationPromise :: "nat option"
  mongoReady :: bool
  clients :: "client_state list"
  initializations :: "init_state list"

definition new_service :: "bool \<Rightarrow> whatsapp_service" where
  "new_service mongo =
     \<lparr>client = None, isInitialized = False, initializationPromise = None,
      mongoReady = mongo, clients = [], initializations = []\<rparr>"

text \<open>
  \<open>_initialize()\<close> from \<open>new MongoStore\<close> to the call of \<open>this.client.initialize()\<close>:
  a new \<open>Client\<close> is constructed and stored in \<open>this.client\<close>.
\<close>

definition create_client :: "nat \<Rightarrow> whatsapp_service \<Rightarrow> whatsapp_service" where
  "create_client p s =
     s\<lparr>client := Some (length (clients s)),
       clients := clients s @ [Live],
       initializations := (initializations s)[p := AwaitClientInitialize]\<rparr>"

text \<open>\<open>_initialize()\<close> up to its first suspension; returns the promise of the call.\<close>

definition initialize_begin :: "whatsapp_service \<Rightarrow> nat \<times> whatsapp_service" where
  "initialize_begin s =
     (let p = length (initializations s);
          s1 = s\<lparr>initializations := initializations s @ [AwaitMongo]\<rparr>
      in (p, if \<not> mongoReady s1 then s1 else create_client p s1))"

text \<open>
  \<open>connect()\<close>: the recorded promise when there is one, otherwise a new call of
  \<open>_initialize()\<close> whose promise is recorded. The function is \<open>async\<close>, so each caller
  holds a promise of its own that follows the one returned here; the model hands out the
  latter.
\<close>

definition connect :: "whatsapp_service \<Rightarrow> nat \<times> whatsapp_service" where
  "connect s =
     (case initializationPromise s of
        Some p \<Rightarrow> (p, s)
      | None \<Rightarrow>
          (let (p, s1) = initialize_begin s
           in (p, s1\<lparr>initializationPromise := Some p\<rparr>)))"

text \<open>The \<open>catch\<close> block of \<open>_initialize()\<close>, for an error with message \<open>e\<close>.\<close>

definition initialize_failed :: "nat \<Rightarrow> string \<Rightarrow> whatsapp_service \<Rightarrow> whatsapp_service" where
  "initialize_failed p e s =
     s\<lparr>isInitialized := False,
       initializationPromise := None,
       initializations := (initializations s)[p := InitRejected
          (AppError (''WhatsApp client initialization failed: '' @ e) 500)]\<rparr>"

text \<open>
  The awaited operations return. \<open>None\<close> is success, \<open>Some e\<close> an error with message
  \<open>e\<close>. A completion for a call that is not suspended there changes nothing.
\<close>

definition mongo_connected :: "nat \<Rightarrow> string option \<Rightarrow> whatsapp_service \<Rightarrow> whatsapp_service" where
  "mongo_connected p r s =
     (if p < length (initializations s) \<and> initializations s ! p = AwaitMongo
      then (case r of
              None \<Rightarrow> create_client p (s\<lparr>mongoReady := True\<rparr>)
            | Some e \<Rightarrow> initialize_failed p e s)
      else s)"

definition client_initialized :: "nat \<Rightarrow> string option \<Rightarrow> whatsapp_service \<Rightarrow> whatsapp_service" where
  "client_initialized p r s =
     (if p < length (initializations s) \<and> initializations s ! p = AwaitClientInitialize
      then (case r of
              None \<Rightarrow> s\<lparr>initializations := (initializations s)[p := AwaitReady]\<rparr>
            | Some e \<Rightarrow> initialize_failed p e s)
      else s)"

text \<open>
  The wait for \<open>ready\<close>. The promise resolves on \<open>ready\<close>, rejects on \<open>auth_failure\<close>
  and rejects when the timer of 120000 ms fires; the first of the three settles it.
  The input is the first \<open>ready\<close> or \<open>auth_failure\<close> the client emits, with the
  milliseconds elapsed since the wait began, or \<open>None\<close> when it emits neither.
  A signal at exactly 120000 ms is ordered after the timer; no property below depends
  on that choice.
\<close>

datatype client_signal = SigReady | SigAuthFailure string

datatype wait_outcome = GotReady | GotAuthFailure string | TimedOut

definition initialization_timeout :: nat where
  "initialization_timeout = 120000"

definition ready_wait :: "(nat \<times> client_signal) option \<Rightarrow> wait_outcome" where
  "ready_wait first =
     (case first of
        None \<Rightarrow> TimedOut
      | Some (t, sig) \<Rightarrow>
          if t < initialization_timeout
          then (case sig of SigReady \<Rightarrow> GotReady | SigAuthFailure e \<Rightarrow> GotAuthFailure e)
          else TimedOut)"

text \<open>
  The handlers installed by \<open>_setupEventHandlers\<close> for \<open>auth_failure\<close> and
  \<open>disconnected\<close> reset the two fields.
\<close>

definition on_auth_failure :: "whatsapp_service \<Rightarrow> whatsapp_service" where
  "on_auth_failure s = s\<lparr>isInitialized := False, initializationPromise := None\<rparr>"

definition on_disconnected :: "whatsapp_service \<Rightarrow> whatsapp_service" where
  "on_disconnected s = s\<lparr>isInitialized := False, initializationPromise := None\<rparr>"

definition ready_wait_done :: "nat \<Rightarrow> (nat \<times> client_signal) option \<Rightarrow> whatsapp_service
    \<Rightarrow> whatsapp_service" where
  "ready_wait_done p first s =
     (if p < length (initializations s) \<and> initializations s ! p = AwaitReady
      then (case ready_wait first of
              GotReady \<Rightarrow>
                s\<lparr>isInitialized := True,
                  initializations := (initializations s)[p := InitFulfilled (client s)]\<rparr>
            | GotAuthFailure e \<Rightarrow>
                initialize_failed p (''Authentication failed: '' @ e) (on_auth_failure s)
            | TimedOut \<Rightarrow> initialize_failed p ''Client initialization timed out'' s)
      else s)"

text \<open>
  \<open>destroy()\<close> and \<open>logout()\<close>. The argument is what the call on the client does:
  \<open>None\<close> when it succeeds, \<open>Some e\<close> when it throws an error with message \<open>e\<close>.
\<close>

definition destroy :: "string option \<Rightarrow> whatsapp_service \<Rightarrow> (app_error + bool) \<times> whatsapp_service" where
  "destroy r s =
     (case (isInitialized s, client s) of
        (True, Some c) \<Rightarrow>
          (case r of
             None \<Rightarrow>
               (Inr True,
                s\<lparr>clients := (clients s)[c := Destroyed],
                  isInitialized := False, initializationPromise := None\<rparr>)
           | Some e \<Rightarrow> (Inl (AppError (''Failed to destroy client: '' @ e) 500), s))
      | _ \<Rightarrow> (Inr False, s))"

definition logout :: "string option \<Rightarrow> whatsapp_service \<Rightarrow> (app_error + bool) \<times> whatsapp_service" where
  "logout r s =
     (case (isInitialized s, client s) of
        (True, Some c) \<Rightarrow>
          (case r of
             None \<Rightarrow>
               (Inr True,
                s\<lparr>clients := (clients s)[c := LoggedOut],
                  isInitialized := False, initializationPromise := None\<rparr>)
           | Some e \<Rightarrow> (Inl (AppError (''Failed to logout: '' @ e) 500), s))
      | _ \<Rightarrow> (Inr False, s))"

text \<open>
  A run of the service: calls of \<open>connect\<close>, \<open>destroy\<close> and \<open>logout\<close>, the completions
  of the awaited operations and the client's events. The run returns the promises handed
  to the callers of \<open>connect\<close>, in call order, and the final state.
\<close>

datatype service_event =
    Connect
  | MongoConnected nat "string option"
  | ClientInitialized nat "string option"
  | ReadyWaitDone nat "(nat \<times> client_signal) option"
  | AuthFailure
  | Disconnected
  | Destroy "string option"
  | Logout "string option"

fun service_step :: "service_event \<Rightarrow> whatsapp_service \<Rightarrow> nat list \<times> whatsapp_service" where
  "service_step Connect s = (let (p, s') = connect s in ([p], s'))"
| "service_step (MongoConnected p r) s = ([], mongo_connected p r s)"
| "service_step (ClientInitialized p r) s = ([], client_initialized p r s)"
| "service_step (ReadyWaitDone p first) s = ([], ready_wait_done p first s)"
| "service_step AuthFailure s = ([], on_auth_failure s)"
| "service_step Disconnected s = ([], on_disconnected s)"
| "service_step (Destroy r) s = ([], snd (destroy r s))"
| "service_step (Logout r) s = ([], snd (logout r s))"

fun service_run :: "service_event list \<Rightarrow> whatsapp_service \<Rightarrow> nat list \<times> whatsapp_service" where
  "service_run [] s = ([], s)"
| "service_run (e # es) s =
     (let (ps, s1) = service_step e s; (qs, s2) = service_run es s1 in (ps @ qs, s2))"

text \<open>
  \<open>sendMessage(to, message, options)\<close>: refuses when the service is not initialized,
  otherwise queues the send.
\<close>

record app_state =
  service :: whatsapp_service
  messageQueue :: message_queue

definition sendMessage :: "queue_config \<Rightarrow> nat \<Rightarrow> string \<Rightarrow> string \<Rightarrow> string \<Rightarrow> string
    \<Rightarrow> app_state \<Rightarrow> (app_error + nat \<times> app_state) option" where
  "sendMessage cfg now rnd recipient content priority st =
     (if \<not> isInitialized (service st) \<or> client (service st) = None
      then Some (Inl (AppError ''WhatsApp client is not initialized'' 400))
      else map_option (\<lambda>(p, q). Inr (p, st\<lparr>messageQueue := q\<rparr>))
             (add cfg now rnd
                \<lparr>opt_to = recipient, opt_message = content,
                 opt_priority = (if priority = [] then ''normal'' else priority)\<rparr>
                (messageQueue st)))"

section \<open>The send route (routes/whatsapp)\<close>

text \<open>
  The fields of a request body are JavaScript values; a field that is absent reads as
  \<open>undefined\<close>. \<open>falsy\<close> is what \<open>!v\<close> tests.
\<close>

datatype js_value = JUndefined | JNull | JBool bool | JNum int | JStr string

fun falsy :: "js_value \<Rightarrow> bool" where
  "falsy JUndefined = True"
| "falsy JNull = True"
| "falsy (JBool b) = (\<not> b)"
| "falsy (JNum n) = (n = 0)"
| "falsy (JStr s) = (s = [])"

fun js_to_string :: "js_value \<Rightarrow> string" where
  "js_to_string JUndefined = ''undefined''"
| "js_to_string JNull = ''null''"
| "js_to_string (JBool b) = (if b then ''true'' else ''false'')"
| "js_to_string (JNum n) = (if n < 0 then ''-'' @ string_of_nat (nat (- n)) else string_of_nat (nat n))"
| "js_to_string (JStr s) = s"

record send_body =
  b_message :: js_value
  b_title :: js_value
  b_to :: js_value
  b_priority :: js_value

text \<open>
  What the handler answers: the status code and the JSON body, which is the pair
  \<open>status\<close>, \<open>message\<close> written by \<open>errorHandler\<close> or the success body with the result.
\<close>

datatype response_body = ErrorBody string string | SendOk send_result

record http_response =
  res_code :: nat
  res_body :: response_body

definition errorHandler :: "app_error \<Rightarrow> http_response" where
  "errorHandler err =
     \<lparr>res_code = (if statusCode err = 0 then 500 else statusCode err),
      res_body = ErrorBody (if status err = [] then ''error'' else status err) (message err)\<rparr>"

text \<open>
  The handler of \<open>POST /send\<close> is suspended twice: at \<open>await whatsappService.connect()\<close>
  and at \<open>await whatsappService.sendMessage(...)\<close>.
\<close>

datatype send_handler =
    Responded http_response
  | AwaitConnect nat string string string
  | AwaitQueue nat

definition post_send :: "js_value \<Rightarrow> send_body \<Rightarrow> app_state \<Rightarrow> send_handler \<times> app_state" where
  "post_send adminNumber body st =
     (if falsy (b_message body) \<or> falsy (b_title body)
      then (Responded (errorHandler (AppError ''Title and message are required fields'' 400)), st)
      else (let content = ''*'' @ js_to_string (b_title body) @ ''*'' @ [CHR 0x0A, CHR 0x0A]
                            @ js_to_string (b_message body);
                recipient = js_to_string (if falsy (b_to body) then adminNumber else b_to body);
                priority = js_to_string (if falsy (b_priority body) then JStr ''normal''
                                         else b_priority body);
                (p, svc) = connect (service st)
            in (AwaitConnect p recipient content priority, st\<lparr>service := svc\<rparr>)))"

text \<open>The handler resumes when the promise of \<open>connect()\<close> has settled.\<close>

definition post_send_connected :: "queue_config \<Rightarrow> nat \<Rightarrow> string \<Rightarrow> send_handler \<Rightarrow> app_state
    \<Rightarrow> (send_handler \<times> app_state) option" where
  "post_send_connected cfg now rnd h st =
     (case h of
        AwaitConnect p recipient content priority \<Rightarrow>
          (if p < length (initializations (service st))
           then (case initializations (service st) ! p of
                   InitRejected e \<Rightarrow> Some (Responded (errorHandler e), st)
                 | InitFulfilled c \<Rightarrow>
                     (case sendMessage cfg now rnd recipient content priority st of
                        None \<Rightarrow> None
                      | Some (Inl e) \<Rightarrow> Some (Responded (errorHandler e), st)
                      | Some (Inr (q, st')) \<Rightarrow> Some (AwaitQueue q, st'))
                 | _ \<Rightarrow> Some (h, st))
           else Some (h, st))
      | _ \<Rightarrow> Some (h, st))"

text \<open>The handler resumes when the promise of the queue has settled.\<close>

definition post_send_settled :: "send_handler \<Rightarrow> app_state \<Rightarrow> send_handler" where
  "post_send_settled h st =
     (case h of
        AwaitQueue q \<Rightarrow>
          (if q < length (promises (messageQueue st))
           then (case promises (messageQueue st) ! q of
                   Fulfilled v \<Rightarrow> Responded \<lparr>res_code = 200, res_body = SendOk v\<rparr>
                 | Rejected e \<Rightarrow> Responded (errorHandler e)
                 | Pending \<Rightarrow> h)
           else h)
      | _ \<Rightarrow> h)"

section \<open>Vocabulary of the properties\<close>

text \<open>
  What \<open>process()\<close> does when it takes a batch: the flag is set, the first
  \<open>concurrency\<close> items leave the backlog and each starts its \<open>processMessage\<close>.
\<close>

definition dispatch :: "queue_config \<Rightarrow> message_queue \<Rightarrow> message_queue" where
  "dispatch cfg s =
     s\<lparr>processing := True, queue := drop (concurrency cfg) (queue s),
       loop := InBatch (map processMessage_begin (take (concurrency cfg) (queue s)))\<rparr>"

definition process_post :: "queue_config \<Rightarrow> message_queue \<Rightarrow> message_queue \<Rightarrow> bool" where
  "process_post cfg s t =
     (if processing s \<or> queue s = [] then t = s
      else 0 < concurrency cfg \<and> t = dispatch cfg s)"

text \<open>The batch in flight, and all the items the queue holds: backlog and batch.\<close>

definition batch_of :: "message_queue \<Rightarrow> (msg \<times> pm_state) list" where
  "batch_of s = (case loop s of InBatch items \<Rightarrow> items | _ \<Rightarrow> [])"

definition items_of :: "message_queue \<Rightarrow> msg list" where
  "items_of s = queue s @ map fst (batch_of s)"

text \<open>
  The invariant behind the bound on \<open>attempts\<close>: an item of the backlog is new or was
  put back for a retry; an item of the batch has been counted once more.
\<close>

definition attempts_ok :: "queue_config \<Rightarrow> message_queue \<Rightarrow> bool" where
  "attempts_ok cfg s =
     ((\<forall>m \<in> set (queue s). attempts m = 0 \<or> attempts m < maxRetries cfg) \<and>
      (\<forall>(m, st) \<in> set (batch_of s).
          attempts m \<le> max 1 (maxRetries cfg) \<and>
          (st = AwaitRetryDelay \<longrightarrow> attempts m < maxRetries cfg)))"

text \<open>
  Two queue states agree on everything but the backlog: the batch in flight, the promises,
  the counters and the flag.
\<close>

definition same_flight :: "message_queue \<Rightarrow> message_queue \<Rightarrow> bool" where
  "same_flight s t =
     (loop s = loop t \<and> promises s = promises t \<and> messagesSent s = messagesSent t \<and>
      messagesFailed s = messagesFailed t \<and> messagesQueued s = messagesQueued t \<and>
      processing s = processing t)"

text \<open>The events by which a batch in flight makes progress.\<close>

fun batch_event :: "queue_event \<Rightarrow> bool" where
  "batch_event (SendDone i outcome) = True"
| "batch_event (RetryElapsed i) = True"
| "batch_event _ = False"

text \<open>
  An item \<open>m'\<close> is carried over from state \<open>s\<close>: it is an item of \<open>s\<close> whose counter
  of attempts has not decreased, with every other field as it was.
\<close>

definition carried :: "message_queue \<Rightarrow> msg \<Rightarrow> bool" where
  "carried s m' =
     (\<exists>m \<in> set (items_of s). m' = m\<lparr>attempts := attempts m'\<rparr> \<and> attempts m \<le> attempts m')"


text \<open>Concrete inputs for the scenarios.\<close>

definition example_options :: send_options where
  "example_options = \<lparr>opt_to = ''491700000000@c.us'', opt_message = ''hello'', opt_priority = ''normal''\<rparr>"

definition example_result :: send_result where
  "example_result = \<lparr>success = True, messageId = ''true_491700000000@c.us_3EB0'', timestamp = 1700000000\<rparr>"

definition no_retry_config :: queue_config where
  "no_retry_config = \<lparr>messageDelay = 1000, maxRetries = 0, retryDelay = 5000, concurrency = 1\<rparr>"

text \<open>Three items added to a new queue: the first is in flight, two are in the backlog.\<close>

definition three_added :: "queue_event list" where
  "three_added =
     [Add 1 ''a'' example_options, Add 2 ''b'' example_options, Add 3 ''c'' example_options]"

definition three_queued :: message_queue where
  "three_queued =
     \<lparr>queue = [new_msg 2 ''b'' example_options 1, new_msg 3 ''c'' example_options 2],
      processing = True, messagesSent = 0, messagesQueued = 3, messagesFailed = 0,
      promises = [Pending, Pending, Pending],
      loop = InBatch [((new_msg 1 ''a'' example_options 0)\<lparr>attempts := 1\<rparr>, AwaitSend)]\<rparr>"

text \<open>One item whose first send throws, up to the start of the second attempt.\<close>

definition retry_run :: "queue_event list" where
  "retry_run =
     [Add 1 ''a'' example_options, SendDone 0 (Inl ''socket closed''), RetryElapsed 0, DelayElapsed]"

text \<open>
  The service after \<open>connect()\<close> and \<open>client.initialize()\<close>, waiting for \<open>ready\<close>; the
  same with \<open>ready\<close> received after five seconds; and a request body without a title.
\<close>

definition awaiting_ready :: whatsapp_service where
  "awaiting_ready = snd (service_run [Connect, ClientInitialized 0 None] (new_service True))"

definition ready_service :: whatsapp_service where
  "ready_service =
     snd (service_run [Connect, ClientInitialized 0 None, ReadyWaitDone 0 (Some (5000, SigReady))]
            (new_service True))"

definition body_without_title :: send_body where
  "body_without_title =
     \<lparr>b_message = JStr ''disk full'', b_title = JUndefined, b_to = JUndefined,
      b_priority = JUndefined\<rparr>"

definition example_app :: app_state where
  "example_app = \<lparr>service = ready_service, messageQueue = three_queued\<rparr>"

section \<open>Properties of the queue\<close>

subsection \<open>\<open>process()\<close> returns unless the concurrency is 0\<close>

lemma process_idle: "processing s \<or> queue s = [] \<Longrightarrow> process cfg s = Some s"
  by (subst process.simps) auto

lemma process_dispatch:
  "\<not> processing s \<Longrightarrow> queue s \<noteq> [] \<Longrightarrow> 0 < concurrency cfg \<Longrightarrow>
     process cfg s = Some (dispatch cfg s)"
  by (subst process.simps) (simp add: Let_def dispatch_def)

lemma process_Some:
  assumes "process cfg s = Some t"
  shows "process_post cfg s t"
proof (rule process.raw_induct[where P = process_post, OF _ assms])
  fix f c u v
  assume IH: "\<And>s b y. f s b = Some y \<Longrightarrow> process_post s b y"
  assume eq: "(if processing u \<or> length (queue u) = 0 then Some u
        else let s1 = u\<lparr>processing := True\<rparr>;
                 batch = take (concurrency c) (queue s1);
                 s2 = s1\<lparr>queue := drop (concurrency c) (queue s1)\<rparr>
             in if 0 < length batch
                then Some (s2\<lparr>loop := InBatch (map processMessage_begin batch)\<rparr>)
                else let s3 = s2\<lparr>processing := False, loop := Idle\<rparr>
                     in if 0 < length (queue s3) then f c s3 else Some s3) = Some v"
  show "process_post c u v"
  proof (cases "processing u \<or> queue u = []")
    case True
    with eq have "v = u" by simp
    with True show ?thesis by (simp add: process_post_def)
  next
    case False
    note busy = this
    show ?thesis
    proof (cases "0 < concurrency c")
      case True
      with busy eq show ?thesis by (auto simp: Let_def dispatch_def process_post_def)
    next
      case False
      with busy eq
      have "f c (u\<lparr>processing := False, loop := Idle\<rparr>) = Some v"
        by (simp add: Let_def)
      from IH[OF this] busy False show ?thesis by (simp add: process_post_def)
    qed
  qed
qed

lemma process_never_returns:
  "\<not> processing s \<Longrightarrow> queue s \<noteq> [] \<Longrightarrow> concurrency cfg = 0 \<Longrightarrow> process cfg s = None"
  using process_Some[of cfg s] by (cases "process cfg s") (auto simp: process_post_def)

lemma process_returns: "0 < concurrency cfg \<Longrightarrow> \<exists>t. process cfg s = Some t"
  by (cases "processing s \<or> queue s = []") (auto simp: process_idle process_dispatch)

lemma queue_step_returns: "0 < concurrency cfg \<Longrightarrow> \<exists>t. queue_step cfg e s = Some t"
proof (cases e)
  case (Add now rnd opts)
  assume "0 < concurrency cfg"
  from process_returns[OF this, of "snd (add_push now rnd opts s)"] Add
  show ?thesis by (auto simp: add_def split_beta)
next
  case DelayElapsed
  assume "0 < concurrency cfg"
  from process_returns[OF this, of "s\<lparr>processing := False, loop := Idle\<rparr>"] DelayElapsed
  show ?thesis by (auto simp: delay_elapsed_def Let_def split: loop_state.splits)
qed simp_all

lemma queue_run_returns: "0 < concurrency cfg \<Longrightarrow> \<exists>t. queue_run cfg es s = Some t"
proof (induction es arbitrary: s)
  case Nil
  then show ?case by simp
next
  case (Cons e es)
  from queue_step_returns[OF Cons.prems, of e s] obtain s1 where "queue_step cfg e s = Some s1"
    by blast
  with Cons.IH[OF Cons.prems, of s1] show ?case by simp
qed

lemma forEach_result_queue [simp]: "queue (forEach_result items s) = queue s"
  by (induction items s rule: forEach_result.induct) simp_all

lemma forEach_result_loop [simp]: "loop (forEach_result items s) = loop s"
  by (induction items s rule: forEach_result.induct) simp_all

lemma forEach_result_processing [simp]: "processing (forEach_result items s) = processing s"
  by (induction items s rule: forEach_result.induct) simp_all

lemma forEach_result_messagesQueued [simp]:
  "messagesQueued (forEach_result items s) = messagesQueued s"
  by (induction items s rule: forEach_result.induct) simp_all

lemma after_settle_queue [simp]: "queue (after_settle s) = queue s"
  by (simp add: after_settle_def split: loop_state.splits)

lemma batch_of_after_settle:
  "set (batch_of (after_settle s)) \<subseteq> set (batch_of s)"
  by (auto simp: after_settle_def batch_of_def split: loop_state.splits)

lemma attempts_ok_after_settle: "attempts_ok cfg s \<Longrightarrow> attempts_ok cfg (after_settle s)"
  using batch_of_after_settle[of s] unfolding attempts_ok_def by auto

lemma attempts_ok_new: "attempts_ok cfg new_queue"
  by (simp add: attempts_ok_def new_queue_def batch_of_def)

lemma attempts_ok_add_push: "attempts_ok cfg s \<Longrightarrow> attempts_ok cfg (snd (add_push now rnd opts s))"
  by (auto simp: attempts_ok_def add_push_def new_msg_def batch_of_def Let_def)

lemma attempts_ok_dispatch: "attempts_ok cfg s \<Longrightarrow> attempts_ok cfg (dispatch cfg s)"
  unfolding attempts_ok_def dispatch_def batch_of_def processMessage_begin_def
  by (auto dest!: in_set_dropD in_set_takeD)

lemma attempts_ok_process:
  "attempts_ok cfg s \<Longrightarrow> process cfg s = Some t \<Longrightarrow> attempts_ok cfg t"
  using process_Some[of cfg s t] attempts_ok_dispatch[of cfg s]
  by (auto simp: process_post_def split: if_splits)

lemma attempts_ok_clear: "attempts_ok cfg s \<Longrightarrow> attempts_ok cfg (snd (clear s))"
  by (simp add: attempts_ok_def clear_def batch_of_def)

lemma attempts_ok_send_done: "attempts_ok cfg s \<Longrightarrow> attempts_ok cfg (send_done cfg i outcome s)"
proof (cases "\<exists>items. loop s = InBatch items \<and> i < length items \<and> snd (items ! i) = AwaitSend")
  case False
  then show "attempts_ok cfg s \<Longrightarrow> ?thesis"
    by (auto simp: send_done_def split: loop_state.splits)
next
  case True
  then obtain items where l: "loop s = InBatch items" and i: "i < length items"
    and st: "snd (items ! i) = AwaitSend" by blast
  assume ok: "attempts_ok cfg s"
  define m where "m = fst (items ! i)"
  have mem: "(m, AwaitSend) \<in> set items"
    using i st unfolding m_def by (metis nth_mem prod.collapse)
  with ok l have am: "attempts m \<le> max 1 (maxRetries cfg)"
    by (auto simp: attempts_ok_def batch_of_def)
  have upd: "\<And>st'. (st' = AwaitRetryDelay \<longrightarrow> attempts m < maxRetries cfg) \<Longrightarrow>
      attempts_ok cfg (s\<lparr>loop := InBatch (items[i := (m, st')])\<rparr>)"
    using ok l am unfolding attempts_ok_def batch_of_def
    by (auto dest!: set_update_subset_insert[THEN subsetD])
  show ?thesis
    using l i st
    by (cases outcome)
       (auto simp: send_done_def Let_def m_def[symmetric] intro!: attempts_ok_after_settle upd)
qed

lemma attempts_ok_retry_elapsed: "attempts_ok cfg s \<Longrightarrow> attempts_ok cfg (retry_elapsed cfg i s)"
proof (cases "\<exists>items. loop s = InBatch items \<and> i < length items \<and> snd (items ! i) = AwaitRetryDelay")
  case False
  then show "attempts_ok cfg s \<Longrightarrow> ?thesis"
    by (auto simp: retry_elapsed_def split: loop_state.splits)
next
  case True
  then obtain items where l: "loop s = InBatch items" and i: "i < length items"
    and st: "snd (items ! i) = AwaitRetryDelay" by blast
  assume ok: "attempts_ok cfg s"
  define m where "m = fst (items ! i)"
  have mem: "(m, AwaitRetryDelay) \<in> set items"
    using i st unfolding m_def by (metis nth_mem prod.collapse)
  with ok l have am: "attempts m < maxRetries cfg"
    by (auto simp: attempts_ok_def batch_of_def)
  have upd: "\<And>e. attempts_ok cfg (s\<lparr>queue := m # queue s, loop := InBatch (items[i := (m, PMRejected e)])\<rparr>)"
    using ok l am unfolding attempts_ok_def batch_of_def
    by (auto dest!: set_update_subset_insert[THEN subsetD])
  show ?thesis
    using l i st
    by (auto simp: retry_elapsed_def Let_def m_def[symmetric] intro!: attempts_ok_after_settle upd)
qed

lemma attempts_ok_delay_elapsed:
  "attempts_ok cfg s \<Longrightarrow> delay_elapsed cfg s = Some t \<Longrightarrow> attempts_ok cfg t"
proof -
  assume ok: "attempts_ok cfg s" and d: "delay_elapsed cfg s = Some t"
  have ok1: "attempts_ok cfg (s\<lparr>processing := False, loop := Idle\<rparr>)"
    using ok by (simp add: attempts_ok_def batch_of_def)
  show ?thesis
    using d ok ok1 attempts_ok_process[OF ok1, of t]
    by (auto simp: delay_elapsed_def Let_def split: loop_state.splits if_splits)
qed

lemma attempts_ok_add:
  "attempts_ok cfg s \<Longrightarrow> add cfg now rnd opts s = Some (p, t) \<Longrightarrow> attempts_ok cfg t"
  using attempts_ok_add_push[of cfg s now rnd opts]
  by (auto simp: add_def split: prod.splits if_splits dest: attempts_ok_process)

lemma attempts_ok_step:
  "attempts_ok cfg s \<Longrightarrow> queue_step cfg e s = Some t \<Longrightarrow> attempts_ok cfg t"
  by (cases e)
     (auto dest: attempts_ok_add attempts_ok_delay_elapsed
           intro: attempts_ok_clear attempts_ok_send_done attempts_ok_retry_elapsed)

lemma attempts_ok_run:
  "attempts_ok cfg s \<Longrightarrow> queue_run cfg es s = Some t \<Longrightarrow> attempts_ok cfg t"
proof (induction es arbitrary: s)
  case Nil
  then show ?case by simp
next
  case (Cons e es)
  then show ?case
    by (auto split: option.splits dest: attempts_ok_step)
qed

lemma attempts_ok_bound:
  "attempts_ok cfg s \<Longrightarrow> m \<in> set (items_of s) \<Longrightarrow> attempts m \<le> max 1 (maxRetries cfg)"
  by (fastforce simp: attempts_ok_def items_of_def)

subsection \<open>Where the items of a state come from\<close>

lemma carried_same: "m \<in> set (items_of s) \<Longrightarrow> carried s m"
  unfolding carried_def by (rule bexI[of _ m]) simp_all

lemma carried_bump: "m \<in> set (items_of s) \<Longrightarrow> carried s (fst (processMessage_begin m))"
  unfolding carried_def processMessage_begin_def by (rule bexI[of _ m]) simp_all

lemma items_of_after_settle: "set (items_of (after_settle s)) \<subseteq> set (items_of s)"
  using batch_of_after_settle[of s] by (auto simp: items_of_def)

lemma items_of_dispatch:
  "m' \<in> set (items_of (dispatch cfg s)) \<Longrightarrow>
     m' \<in> set (queue s) \<or> (\<exists>m \<in> set (queue s). m' = fst (processMessage_begin m))"
  by (auto simp: items_of_def dispatch_def batch_of_def dest: in_set_dropD in_set_takeD)

lemma items_of_process:
  "process cfg s = Some t \<Longrightarrow> m' \<in> set (items_of t) \<Longrightarrow>
     m' \<in> set (items_of s) \<or> (\<exists>m \<in> set (queue s). m' = fst (processMessage_begin m))"
  using process_Some[of cfg s t] items_of_dispatch[of m' cfg s]
  by (auto simp: process_post_def items_of_def split: if_splits)

lemma items_of_send_done: "set (items_of (send_done cfg i outcome s)) \<subseteq> set (items_of s)"
proof (cases "\<exists>items. loop s = InBatch items \<and> i < length items \<and> snd (items ! i) = AwaitSend")
  case False
  then show ?thesis by (auto simp: send_done_def split: loop_state.splits)
next
  case True
  then obtain items where l: "loop s = InBatch items" and i: "i < length items"
    and st: "snd (items ! i) = AwaitSend" by blast
  have keep: "\<And>st'. map fst (items[i := (fst (items ! i), st')]) = map fst items"
    using i by (simp add: map_update list_update_same_conv)
  have "\<And>st'. set (items_of (s\<lparr>loop := InBatch (items[i := (fst (items ! i), st')])\<rparr>)) = set (items_of s)"
    using l keep by (simp add: items_of_def batch_of_def)
  then show ?thesis
    using l i st items_of_after_settle
    by (cases outcome) (auto simp: send_done_def Let_def)
qed

lemma items_of_retry_elapsed: "set (items_of (retry_elapsed cfg i s)) \<subseteq> set (items_of s)"
proof (cases "\<exists>items. loop s = InBatch items \<and> i < length items \<and> snd (items ! i) = AwaitRetryDelay")
  case False
  then show ?thesis by (auto simp: retry_elapsed_def split: loop_state.splits)
next
  case True
  then obtain items where l: "loop s = InBatch items" and i: "i < length items"
    and st: "snd (items ! i) = AwaitRetryDelay" by blast
  have keep: "\<And>st'. map fst (items[i := (fst (items ! i), st')]) = map fst items"
    using i by (simp add: map_update list_update_same_conv)
  have mem: "fst (items ! i) \<in> set (items_of s)"
    using l i by (simp add: items_of_def batch_of_def)
  have "\<And>st'. set (items_of (s\<lparr>queue := fst (items ! i) # queue s,
            loop := InBatch (items[i := (fst (items ! i), st')])\<rparr>)) = set (items_of s)"
    using l keep mem by (auto simp: items_of_def batch_of_def)
  then show ?thesis
    using l i st items_of_after_settle
    by (auto simp: retry_elapsed_def Let_def)
qed

lemma items_of_delay_elapsed:
  "delay_elapsed cfg s = Some t \<Longrightarrow> m' \<in> set (items_of t) \<Longrightarrow> carried s m'"
proof -
  assume d: "delay_elapsed cfg s = Some t" and m: "m' \<in> set (items_of t)"
  show ?thesis
  proof (cases "loop s = BatchDelay")
    case False
    with d m show ?thesis
      by (auto simp: delay_elapsed_def split: loop_state.splits intro: carried_same)
  next
    case True
    let ?s1 = "s\<lparr>processing := False, loop := Idle\<rparr>"
    have q: "set (items_of ?s1) = set (queue s)" "queue ?s1 = queue s" "set (queue s) \<subseteq> set (items_of s)"
      by (simp_all add: items_of_def batch_of_def)
    from True d have "process cfg ?s1 = Some t \<or> t = ?s1"
      by (auto simp: delay_elapsed_def Let_def split: if_splits)
    then show ?thesis
    proof
      assume "process cfg ?s1 = Some t"
      from items_of_process[OF this m] q show ?thesis
        by (auto intro: carried_same carried_bump)
    next
      assume "t = ?s1"
      with m q show ?thesis by (auto intro: carried_same)
    qed
  qed
qed

lemma items_of_add:
  assumes "add cfg now rnd opts s = Some (p, t)" and "m' \<in> set (items_of t)"
  shows "carried s m' \<or> m' = (new_msg now rnd opts (length (promises s)))\<lparr>attempts := attempts m'\<rparr>"
proof -
  let ?n = "new_msg now rnd opts (length (promises s))"
  let ?s3 = "snd (add_push now rnd opts s)"
  have q3: "queue ?s3 = queue s @ [?n]" and b3: "batch_of ?s3 = batch_of s"
    by (simp_all add: add_push_def Let_def batch_of_def)
  have t: "t = ?s3 \<or> process cfg ?s3 = Some t"
    using assms(1) by (auto simp: add_def split: prod.splits if_splits)
  have "m' \<in> set (items_of ?s3) \<or> (\<exists>m \<in> set (queue ?s3). m' = fst (processMessage_begin m))"
    using t assms(2) items_of_process[of cfg ?s3 t m'] by auto
  then show ?thesis
  proof
    assume "m' \<in> set (items_of ?s3)"
    then have "m' \<in> set (items_of s) \<or> m' = ?n"
      using q3 b3 by (auto simp: items_of_def)
    then show ?thesis by (auto intro: carried_same)
  next
    assume "\<exists>m \<in> set (queue ?s3). m' = fst (processMessage_begin m)"
    then obtain m where m: "m \<in> set (queue ?s3)" "m' = fst (processMessage_begin m)" by blast
    from m(1) q3 have "m \<in> set (queue s) \<or> m = ?n" by auto
    then show ?thesis
    proof
      assume "m \<in> set (queue s)"
      then have "m \<in> set (items_of s)" by (simp add: items_of_def)
      with m(2) show ?thesis by (auto intro: carried_bump)
    next
      assume "m = ?n"
      with m(2) show ?thesis by (simp add: processMessage_begin_def)
    qed
  qed
qed

lemma step_carries:
  assumes "queue_step cfg e s = Some t" and "m' \<in> set (items_of t)"
  shows "carried s m' \<or>
         (\<exists>now rnd opts. e = Add now rnd opts \<and>
            m' = (new_msg now rnd opts (length (promises s)))\<lparr>attempts := attempts m'\<rparr>)"
proof (cases e)
  case (Add now rnd opts)
  with assms show ?thesis by (auto dest: items_of_add)
next
  case Clear
  have "batch_of (s\<lparr>queue := []\<rparr>) = batch_of s" by (simp add: batch_of_def)
  with Clear assms have "m' \<in> set (items_of s)" by (auto simp: clear_def items_of_def)
  then show ?thesis by (simp add: carried_same)
next
  case (SendDone i outcome)
  with assms items_of_send_done[of cfg i outcome s] show ?thesis by (auto intro: carried_same)
next
  case (RetryElapsed i)
  with assms items_of_retry_elapsed[of cfg i s] show ?thesis by (auto intro: carried_same)
next
  case DelayElapsed
  with assms show ?thesis by (auto dest: items_of_delay_elapsed)
qed

subsection \<open>States that differ in the backlog only\<close>

lemma same_flight_refl: "same_flight s s"
  by (simp add: same_flight_def)

lemma same_flight_forEach:
  "same_flight s t \<Longrightarrow> same_flight (forEach_result items s) (forEach_result items t)"
proof (induction items s arbitrary: t rule: forEach_result.induct)
  case (1 s)
  then show ?case by simp
next
  case (2 m v rest s)
  have "same_flight
          (s\<lparr>promises := settle (promise m) (Fulfilled v) (promises s),
             messagesSent := messagesSent s + 1\<rparr>)
          (t\<lparr>promises := settle (promise m) (Fulfilled v) (promises t),
             messagesSent := messagesSent t + 1\<rparr>)"
    using 2(2) by (simp add: same_flight_def)
  from 2(1)[OF this] show ?case by simp
next
  case (3 m e rest s)
  have "same_flight
          (s\<lparr>promises := settle (promise m) (Rejected e) (promises s),
             messagesFailed := messagesFailed s + 1\<rparr>)
          (t\<lparr>promises := settle (promise m) (Rejected e) (promises t),
             messagesFailed := messagesFailed t + 1\<rparr>)"
    using 3(2) by (simp add: same_flight_def)
  from 3(1)[OF this] show ?case by simp
qed simp_all

lemma same_flight_after_settle:
  "same_flight s t \<Longrightarrow> same_flight (after_settle s) (after_settle t)"
proof -
  assume st: "same_flight s t"
  then have l: "loop s = loop t" by (simp add: same_flight_def)
  have upd: "\<And>a b. same_flight a b \<Longrightarrow> same_flight (a\<lparr>loop := BatchDelay\<rparr>) (b\<lparr>loop := BatchDelay\<rparr>)"
    by (simp add: same_flight_def)
  show ?thesis
    using st l by (auto simp: after_settle_def split: loop_state.splits intro!: upd same_flight_forEach)
qed

lemma same_flight_send_done:
  "same_flight s t \<Longrightarrow> same_flight (send_done cfg i outcome s) (send_done cfg i outcome t)"
proof -
  assume st: "same_flight s t"
  then have l: "loop s = loop t" by (simp add: same_flight_def)
  have upd: "\<And>x. same_flight (s\<lparr>loop := x\<rparr>) (t\<lparr>loop := x\<rparr>)"
    using st by (simp add: same_flight_def)
  show ?thesis
    using st l
    by (auto simp: send_done_def Let_def split: loop_state.splits intro!: same_flight_after_settle upd)
qed

lemma same_flight_retry_elapsed:
  "same_flight s t \<Longrightarrow> same_flight (retry_elapsed cfg i s) (retry_elapsed cfg i t)"
proof -
  assume st: "same_flight s t"
  then have l: "loop s = loop t" by (simp add: same_flight_def)
  have upd: "\<And>x q q'. same_flight (s\<lparr>queue := q, loop := x\<rparr>) (t\<lparr>queue := q', loop := x\<rparr>)"
    using st by (simp add: same_flight_def)
  show ?thesis
    using st l
    by (auto simp: retry_elapsed_def Let_def split: loop_state.splits intro!: same_flight_after_settle upd)
qed

lemma same_flight_run:
  "list_all batch_event es \<Longrightarrow> same_flight s t \<Longrightarrow>
     \<exists>s' t'. queue_run cfg es s = Some s' \<and> queue_run cfg es t = Some t' \<and> same_flight s' t'"
proof (induction es arbitrary: s t)
  case Nil
  then show ?case by simp
next
  case (Cons e es)
  from Cons.prems(1) have e: "batch_event e" and es: "list_all batch_event es" by simp_all
  from e obtain s1 t1 where 1: "queue_step cfg e s = Some s1" "queue_step cfg e t = Some t1"
    "same_flight s1 t1"
    using Cons.prems(2)
    by (cases e) (auto intro: same_flight_send_done same_flight_retry_elapsed)
  from Cons.IH[OF es 1(3)] 1(1,2) show ?case by simp
qed

lemma same_flight_clear: "same_flight (snd (clear s)) s"
  by (simp add: clear_def same_flight_def)

subsection \<open>Evaluating runs\<close>

lemma AppError_500:
  "AppError msg 500 = \<lparr>message = msg, statusCode = 500, status = ''error''\<rparr>"
  by (simp add: AppError_def string_of_nat.simps)

lemmas queue_eval =
  three_added_def default_queue_config_def new_queue_def add_def add_push_def new_msg_def
  process_dispatch process_idle dispatch_def processMessage_begin_def send_done_def
  retry_elapsed_def after_settle_def delay_elapsed_def settle_def getStats_def Let_def
  string_of_nat.simps AppError_500

lemma three_queued_reached:
  "queue_run default_queue_config three_added new_queue = Some three_queued"
  by (simp add: queue_eval three_queued_def)

lemma retry_run_attempts:
  "map_option (map attempts \<circ> items_of) (queue_run default_queue_config retry_run new_queue)
     = Some [2]"
  by (simp add: queue_eval retry_run_def items_of_def batch_of_def)

lemma first_add_returns:
  "queue_step default_queue_config (Add 1 ''a'' example_options) new_queue \<noteq> None"
  by (simp add: queue_eval)

subsection \<open>The claims about the queue\<close>

text \<open>
  C1, at the failing input: with the default configuration (three attempts, one item per
  batch) one item is added and its first send throws. When the retry delay has elapsed
  the item is back in the backlog, and the walk over the results rejects the caller's
  promise with the "will be retried" error and counts a failure. The second attempt
  succeeds and counts as sent, but the promise is already settled and stays rejected.
  When instead all three attempts throw, the promise carries the error of the first and
  three failures are counted for the one item.
\<close>

theorem retry_rejects_caller:
  "map_option promises
     (queue_run default_queue_config
        [Add 1 ''a'' example_options, SendDone 0 (Inl ''socket closed''), RetryElapsed 0] new_queue)
     = Some [Rejected (AppError ''Message will be retried (1/3)'' 500)] \<and>
   map_option getStats
     (queue_run default_queue_config
        [Add 1 ''a'' example_options, SendDone 0 (Inl ''socket closed''), RetryElapsed 0] new_queue)
     = Some \<lparr>queued = 1, sent = 0, failed = 1, total = 1, stat_processing = True\<rparr> \<and>
   map_option promises
     (queue_run default_queue_config
        [Add 1 ''a'' example_options, SendDone 0 (Inl ''socket closed''), RetryElapsed 0,
         DelayElapsed, SendDone 0 (Inr example_result), DelayElapsed] new_queue)
     = Some [Rejected (AppError ''Message will be retried (1/3)'' 500)] \<and>
   map_option getStats
     (queue_run default_queue_config
        [Add 1 ''a'' example_options, SendDone 0 (Inl ''socket closed''), RetryElapsed 0,
         DelayElapsed, SendDone 0 (Inr example_result), DelayElapsed] new_queue)
     = Some \<lparr>queued = 0, sent = 1, failed = 1, total = 1, stat_processing = False\<rparr> \<and>
   map_option promises
     (queue_run default_queue_config
        [Add 1 ''a'' example_options, SendDone 0 (Inl ''socket closed''), RetryElapsed 0,
         DelayElapsed, SendDone 0 (Inl ''socket closed''), RetryElapsed 0,
         DelayElapsed, SendDone 0 (Inl ''socket closed''), DelayElapsed] new_queue)
     = Some [Rejected (AppError ''Message will be retried (1/3)'' 500)] \<and>
   map_option getStats
     (queue_run default_queue_config
        [Add 1 ''a'' example_options, SendDone 0 (Inl ''socket closed''), RetryElapsed 0,
         DelayElapsed, SendDone 0 (Inl ''socket closed''), RetryElapsed 0,
         DelayElapsed, SendDone 0 (Inl ''socket closed''), DelayElapsed] new_queue)
     = Some \<lparr>queued = 0, sent = 0, failed = 3, total = 1, stat_processing = False\<rparr>"
  by (simp add: queue_eval)

text \<open>
  C2, at the failing input: three items are added with one item per batch, the first
  send of the first item throws, every other send succeeds. The promises settle in the
  order first, second, third, but the first is rejected by its failed attempt, and the
  statistics end with three sent and one failed.
\<close>

theorem first_item_retried_scenario:
  "map_option promises
     (queue_run default_queue_config
        (three_added @ [SendDone 0 (Inl ''socket closed''), RetryElapsed 0]) new_queue)
     = Some [Rejected (AppError ''Message will be retried (1/3)'' 500), Pending, Pending] \<and>
   map_option (map msg_id \<circ> queue)
     (queue_run default_queue_config
        (three_added @ [SendDone 0 (Inl ''socket closed''), RetryElapsed 0]) new_queue)
     = Some [''1a'', ''2b'', ''3c''] \<and>
   map_option promises
     (queue_run default_queue_config
        (three_added @
         [SendDone 0 (Inl ''socket closed''), RetryElapsed 0, DelayElapsed,
          SendDone 0 (Inr example_result), DelayElapsed,
          SendDone 0 (Inr example_result), DelayElapsed,
          SendDone 0 (Inr example_result), DelayElapsed]) new_queue)
     = Some [Rejected (AppError ''Message will be retried (1/3)'' 500),
             Fulfilled example_result, Fulfilled example_result] \<and>
   map_option getStats
     (queue_run default_queue_config
        (three_added @
         [SendDone 0 (Inl ''socket closed''), RetryElapsed 0, DelayElapsed,
          SendDone 0 (Inr example_result), DelayElapsed,
          SendDone 0 (Inr example_result), DelayElapsed,
          SendDone 0 (Inr example_result), DelayElapsed]) new_queue)
     = Some \<lparr>queued = 0, sent = 3, failed = 1, total = 3, stat_processing = False\<rparr>"
  by (simp add: queue_eval)

text \<open>
  C6: \<open>clear()\<close> empties the backlog in one step and returns the number of items that
  were in it. The batch in flight is not touched, and whatever sends and retry delays of
  that batch complete afterwards, the batch, the promises, the counters and the flag
  develop exactly as they would have without the \<open>clear()\<close>.
\<close>

theorem clear_spares_dispatched:
  "fst (clear s) = length (queue s) \<and>
   queue (snd (clear s)) = [] \<and>
   batch_of (snd (clear s)) = batch_of s \<and>
   (list_all batch_event es \<longrightarrow>
      (\<exists>t t'. queue_run cfg es (snd (clear s)) = Some t \<and> queue_run cfg es s = Some t' \<and>
               same_flight t t'))"
  using same_flight_run[OF _ same_flight_clear, of es cfg s]
  by (simp add: clear_def batch_of_def)

theorem clear_spares_dispatched_witness:
  "queue_run default_queue_config three_added new_queue = Some three_queued \<and>
   list_all batch_event [SendDone 0 (Inr example_result)] \<and>
   fst (clear three_queued) = 2 \<and>
   queue (snd (clear three_queued)) = [] \<and>
   batch_of (snd (clear three_queued)) =
     [((new_msg 1 ''a'' example_options 0)\<lparr>attempts := 1\<rparr>, AwaitSend)] \<and>
   (\<exists>t t'. queue_run default_queue_config [SendDone 0 (Inr example_result)]
               (snd (clear three_queued)) = Some t \<and>
            queue_run default_queue_config [SendDone 0 (Inr example_result)] three_queued = Some t' \<and>
            same_flight t t')"
proof -
  have ev: "list_all batch_event [SendDone 0 (Inr example_result)]" by simp
  have b: "batch_of three_queued = [((new_msg 1 ''a'' example_options 0)\<lparr>attempts := 1\<rparr>, AwaitSend)]"
    by (simp add: three_queued_def batch_of_def)
  have q: "length (queue three_queued) = 2" by (simp add: three_queued_def)
  from clear_spares_dispatched[of three_queued "[SendDone 0 (Inr example_result)]" default_queue_config]
    ev b q three_queued_reached
  show ?thesis by simp
qed

text \<open>
  C7, as stated, fails when the configured \<open>maxRetries\<close> is 0: the item is still
  attempted once, so its counter reads 1.
\<close>

theorem attempts_exceed_without_retries:
  "maxRetries no_retry_config = 0 \<and>
   map_option (map attempts \<circ> items_of)
     (queue_run no_retry_config [Add 1 ''a'' example_options] new_queue) = Some [1]"
  by (simp add: queue_eval no_retry_config_def items_of_def batch_of_def)

text \<open>
  C7, amended: a new item is pushed with \<open>attempts\<close> 0; in every step of the queue each
  item of the new state is an item of the old state whose counter has not decreased, or
  the item just added; and in every state reached from a new queue the counter of every
  item is at most the larger of 1 and \<open>maxRetries\<close> (so at most \<open>maxRetries\<close> whenever
  that is at least 1). Such states exist for every sequence of events when the
  concurrency is positive.
\<close>

theorem attempts_bounded:
  "queue (snd (add_push now rnd opts s0)) = queue s0 @ [new_msg now rnd opts (length (promises s0))] \<and>
   attempts (new_msg now rnd opts (length (promises s0))) = 0 \<and>
   (queue_step cfg e s = Some s' \<longrightarrow>
      (\<forall>m' \<in> set (items_of s').
          carried s m' \<or>
          (\<exists>now rnd opts. e = Add now rnd opts \<and>
             m' = (new_msg now rnd opts (length (promises s)))\<lparr>attempts := attempts m'\<rparr>))) \<and>
   (queue_run cfg es new_queue = Some t \<longrightarrow>
      (\<forall>m \<in> set (items_of t). attempts m \<le> max 1 (maxRetries cfg))) \<and>
   (0 < concurrency cfg \<longrightarrow> (\<exists>u. queue_run cfg es new_queue = Some u))"
proof (intro conjI impI ballI)
  show "queue (snd (add_push now rnd opts s0)) = queue s0 @ [new_msg now rnd opts (length (promises s0))]"
    by (simp add: add_push_def Let_def)
  show "attempts (new_msg now rnd opts (length (promises s0))) = 0"
    by (simp add: new_msg_def)
next
  fix m' assume "queue_step cfg e s = Some s'" and "m' \<in> set (items_of s')"
  then show "carried s m' \<or>
          (\<exists>now rnd opts. e = Add now rnd opts \<and>
             m' = (new_msg now rnd opts (length (promises s)))\<lparr>attempts := attempts m'\<rparr>)"
    by (rule step_carries)
next
  fix m assume "queue_run cfg es new_queue = Some t" and "m \<in> set (items_of t)"
  then show "attempts m \<le> max 1 (maxRetries cfg)"
    using attempts_ok_run[OF attempts_ok_new] attempts_ok_bound by blast
next
  assume "0 < concurrency cfg"
  then show "\<exists>u. queue_run cfg es new_queue = Some u"
    by (rule queue_run_returns)
qed

theorem attempts_bounded_witness:
  "0 < concurrency default_queue_config \<and>
   (\<exists>s'. queue_step default_queue_config (Add 1 ''a'' example_options) new_queue = Some s' \<and>
         list_all (\<lambda>m'. carried new_queue m' \<or>
                     (\<exists>now rnd opts. Add 1 ''a'' example_options = Add now rnd opts \<and>
                        m' = (new_msg now rnd opts (length (promises new_queue)))
                               \<lparr>attempts := attempts m'\<rparr>))
           (items_of s')) \<and>
   (\<exists>t. queue_run default_queue_config retry_run new_queue = Some t \<and>
        map attempts (items_of t) = [2] \<and>
        list_all (\<lambda>m. attempts m \<le> max 1 (maxRetries default_queue_config)) (items_of t))"
proof (intro conjI)
  show "0 < concurrency default_queue_config"
    by (simp add: default_queue_config_def)
next
  obtain s' where s': "queue_step default_queue_config (Add 1 ''a'' example_options) new_queue = Some s'"
    using first_add_returns by blast
  from attempts_bounded[of 0 "[]" example_options new_queue default_queue_config
      "Add 1 ''a'' example_options" new_queue s' "[]" new_queue] s'
  show "\<exists>s'. queue_step default_queue_config (Add 1 ''a'' example_options) new_queue = Some s' \<and>
         list_all (\<lambda>m'. carried new_queue m' \<or>
                     (\<exists>now rnd opts. Add 1 ''a'' example_options = Add now rnd opts \<and>
                        m' = (new_msg now rnd opts (length (promises new_queue)))
                               \<lparr>attempts := attempts m'\<rparr>))
           (items_of s')"
    unfolding list_all_iff by (intro exI[of _ s']) simp
next
  have "0 < concurrency default_queue_config"
    by (simp add: default_queue_config_def)
  with attempts_bounded[of 0 "[]" example_options new_queue default_queue_config
      "Add 1 ''a'' example_options" new_queue new_queue retry_run new_queue]
  obtain t where t: "queue_run default_queue_config retry_run new_queue = Some t"
    by blast
  have a: "map attempts (items_of t) = [2]"
    using retry_run_attempts t by simp
  from attempts_bounded[of 0 "[]" example_options new_queue default_queue_config
      "Add 1 ''a'' example_options" new_queue new_queue retry_run t] t
  have "\<forall>m \<in> set (items_of t). attempts m \<le> max 1 (maxRetries default_queue_config)"
    by blast
  with t a
  show "\<exists>t. queue_run default_queue_config retry_run new_queue = Some t \<and>
        map attempts (items_of t) = [2] \<and>
        list_all (\<lambda>m. attempts m \<le> max 1 (maxRetries default_queue_config)) (items_of t)"
    unfolding list_all_iff by (intro exI[of _ t]) simp
qed

text \<open>
  C10: \<open>clear()\<close> writes the backlog only. The three lifetime counters and the processing
  flag are the same before and after, and the statistics read after \<open>clear()\<close> are those
  read before with \<open>queued\<close> set to 0.
\<close>

theorem clear_frame:
  "messagesSent (snd (clear s)) = messagesSent s \<and>
   messagesFailed (snd (clear s)) = messagesFailed s \<and>
   messagesQueued (snd (clear s)) = messagesQueued s \<and>
   processing (snd (clear s)) = processing s \<and>
   getStats (snd (clear s)) = (getStats s)\<lparr>queued := 0\<rparr>"
  by (simp add: clear_def getStats_def)

section \<open>Properties of the session service\<close>

lemmas service_eval =
  new_service_def connect_def initialize_begin_def create_client_def mongo_connected_def
  client_initialized_def ready_wait_done_def ready_wait_def initialization_timeout_def
  initialize_failed_def Let_def






lemma awaiting_ready_eq:
  "awaiting_ready =
     \<lparr>client = Some 0, isInitialized = False, initializationPromise = Some 0,
      mongoReady = True, clients = [Live], initializations = [AwaitReady]\<rparr>"
  by (simp add: awaiting_ready_def service_eval)

lemma ready_service_eq:
  "ready_service =
     \<lparr>client = Some 0, isInitialized = True, initializationPromise = Some 0,
      mongoReady = True, clients = [Live], initializations = [InitFulfilled (Some 0)]\<rparr>"
  by (simp add: ready_service_def service_eval)





text \<open>
  C9: after a call of \<open>destroy()\<close> that returned true, a second call returns false,
  raises no error and changes nothing.
\<close>

theorem destroy_twice:
  "destroy r s = (Inr True, s') \<Longrightarrow> destroy r' s' = (Inr False, s')"
  by (auto simp: destroy_def split: bool.splits option.splits)

theorem destroy_twice_witness:
  "destroy None ready_service = (Inr True, snd (destroy None ready_service)) \<and>
   destroy None (snd (destroy None ready_service)) = (Inr False, snd (destroy None ready_service)) \<and>
   clients (snd (destroy None ready_service)) = [Destroyed]"
proof -
  have d: "destroy None ready_service = (Inr True, snd (destroy None ready_service))"
    and c: "clients (snd (destroy None ready_service)) = [Destroyed]"
    by (simp_all add: ready_service_eq destroy_def)
  from destroy_twice[OF d, of None] d c show ?thesis by simp
qed

text \<open>
  C4, as stated, fails: while the service waits for \<open>ready\<close> a client object exists,
  yet \<open>destroy()\<close> returns false and leaves the client alive.
\<close>

theorem destroy_skips_unready_client:
  "client awaiting_ready = Some 0 \<and>
   clients awaiting_ready ! 0 = Live \<and>
   \<not> isInitialized awaiting_ready \<and>
   destroy None awaiting_ready = (Inr False, awaiting_ready)"
  by (simp add: awaiting_ready_eq destroy_def)

text \<open>
  C4, amended: \<open>destroy()\<close> tears the client down only when the service is initialized
  and has a client; then, the client's own \<open>destroy\<close> succeeding, it returns true and
  clears \<open>isInitialized\<close> and \<open>initializationPromise\<close>. In every other state it
  changes nothing and returns false; it returns false exactly in those states.
\<close>

theorem destroy_when_ready:
  "(isInitialized s \<and> client s = Some c \<longrightarrow>
      destroy None s =
        (Inr True, s\<lparr>clients := (clients s)[c := Destroyed],
                     isInitialized := False, initializationPromise := None\<rparr>)) \<and>
   (\<not> (isInitialized s \<and> client s \<noteq> None) \<longrightarrow> destroy r s = (Inr False, s)) \<and>
   ((fst (destroy r s) = Inr False) = (\<not> (isInitialized s \<and> client s \<noteq> None)))"
  by (auto simp: destroy_def split: bool.splits option.splits)

theorem destroy_when_ready_witness:
  "isInitialized ready_service \<and> client ready_service = Some 0 \<and>
   destroy None ready_service =
     (Inr True, ready_service\<lparr>clients := [Destroyed], isInitialized := False,
                              initializationPromise := None\<rparr>) \<and>
   \<not> isInitialized awaiting_ready \<and>
   destroy None awaiting_ready = (Inr False, awaiting_ready)"
proof -
  have r: "isInitialized ready_service" "client ready_service = Some 0"
    "clients ready_service = [Live]"
    by (simp_all add: ready_service_eq)
  have a: "\<not> isInitialized awaiting_ready" by (simp add: awaiting_ready_eq)
  from destroy_when_ready[of ready_service 0 None] destroy_when_ready[of awaiting_ready 0 None]
    r a
  show ?thesis by simp
qed

section \<open>Properties of the send route\<close>

text \<open>
  C8: a \<open>POST /send\<close> whose body lacks \<open>message\<close> or \<open>title\<close> is answered with status
  400 and the message "Title and message are required fields"; the service and the queue
  are as before, so no item is queued and the statistics do not change.
\<close>

theorem post_send_missing_field:
  "b_message body = JUndefined \<or> b_title body = JUndefined \<Longrightarrow>
     post_send adminNumber body st =
       (Responded \<lparr>res_code = 400,
                   res_body = ErrorBody ''fail'' ''Title and message are required fields''\<rparr>, st) \<and>
     queue (messageQueue (snd (post_send adminNumber body st))) = queue (messageQueue st) \<and>
     getStats (messageQueue (snd (post_send adminNumber body st))) = getStats (messageQueue st)"
  by (auto simp: post_send_def errorHandler_def AppError_def string_of_nat.simps)

theorem post_send_missing_field_witness:
  "b_title body_without_title = JUndefined \<and>
   post_send (JStr ''491700000001@c.us'') body_without_title example_app =
     (Responded \<lparr>res_code = 400,
                 res_body = ErrorBody ''fail'' ''Title and message are required fields''\<rparr>,
      example_app) \<and>
   getStats (messageQueue (snd (post_send (JStr ''491700000001@c.us'') body_without_title example_app)))
     = \<lparr>queued = 2, sent = 0, failed = 0, total = 3, stat_processing = True\<rparr>"
proof -
  have t: "b_title body_without_title = JUndefined" by (simp add: body_without_title_def)
  have g: "getStats (messageQueue example_app)
     = \<lparr>queued = 2, sent = 0, failed = 0, total = 3, stat_processing = True\<rparr>"
    by (simp add: example_app_def three_queued_def getStats_def)
  from post_send_missing_field[OF disjI2, OF t, of "JStr ''491700000001@c.us''" example_app] t g
  show ?thesis by simp
qed

end
